theory Spec2Isabelle
  imports Complex_Main "HOL-Library.AList" "HOL-Library.Multiset"
begin

section \<open>Values, failures and collaborators\<close>

text \<open>
  The module \<open>rio_tiler.cbers\<close> has three public functions, \<open>bounds\<close>, \<open>metadata\<close> and
  \<open>tile\<close>. Every exception of the Python code is a value of \<open>exn\<close>; a function that can
  raise returns \<open>exn + 'a\<close> with \<open>Inl\<close> for the exception.
\<close>

datatype exn =
    AttributeError string
  | ParseError
  | IOError
  | TileOutsideBounds int int int
  | ValueError string
  | WorkerFailure string

text \<open>A bounding box is the 4-tuple (left, bottom, right, top) of \<open>src.bounds\<close> and of
  \<open>transform_bounds\<close>.\<close>

type_synonym bbox = "real \<times> real \<times> real \<times> real"

definition list_of_bbox :: "bbox \<Rightarrow> real list" where
  "list_of_bbox b = (case b of (w, s, e, n) \<Rightarrow> [w, s, e, n])"

text \<open>The dataset handle \<open>src\<close> of \<open>rasterio.open\<close>, as far as the module reads it.\<close>

record raster =
  src_crs :: string
  src_bounds :: bbox

text \<open>The dictionary returned by the scene-id parser; the module reads \<open>scene_params['key']\<close>.\<close>

record scene_params =
  key :: string

text \<open>An n-dimensional array: a pixel, or a sequence of arrays along axis 0.\<close>

datatype ndarray = Px int | Arr "ndarray list"

fun shape :: "ndarray \<Rightarrow> nat list" where
  "shape (Px v) = []"
| "shape (Arr []) = [0]"
| "shape (Arr (a # as)) = Suc (length as) # shape a"

text \<open>
  \<open>rio_tiler.utils\<close> is imported by the module and is not part of it. Each name the module
  looks up on it is an attribute that the imported module may or may not define; a lookup of
  a name it does not define raises \<open>AttributeError\<close>.
\<close>

record utils_module =
  cbers_parse_scene_id :: "(string \<Rightarrow> exn + scene_params) option"
  cbersl_parse_scene_id :: "(string \<Rightarrow> exn + scene_params) option"
  sentinel_min_max_worker :: "(string \<Rightarrow> int \<Rightarrow> int \<Rightarrow> exn + real \<times> real) option"
  tile_exists :: "(bbox \<Rightarrow> int \<Rightarrow> int \<Rightarrow> int \<Rightarrow> bool) option"
  tile_band_worker :: "(string \<Rightarrow> bbox \<Rightarrow> int \<Rightarrow> exn + ndarray) option"

text \<open>
  The world a call runs in: the imported \<open>utils\<close>, the raster store behind
  \<open>rasterio.open\<close>, \<open>rasterio.warp.transform_bounds\<close> (source crs, destination crs, box,
  \<open>densify_pts\<close>) and \<open>mercantile.xy_bounds\<close> of the tile (x, y, z).
\<close>

record env =
  utils :: utils_module
  rasterio_open :: "string \<Rightarrow> exn + raster"
  transform_bounds :: "string \<Rightarrow> string \<Rightarrow> bbox \<Rightarrow> nat \<Rightarrow> bbox"
  xy_bounds :: "int \<Rightarrow> int \<Rightarrow> int \<Rightarrow> bbox"

text \<open>
  The calls a function makes to its collaborators are recorded in the order it makes them:
  every \<open>rasterio.open\<close> with its path, every \<open>transform_bounds\<close> with its arguments, and
  the call of \<open>utils.tile_exists\<close> with the bounds and the tile it is given.
\<close>

datatype call =
    RasterOpen string
  | TransformBounds string string bbox nat
  | TileExists bbox int int int

fun opened :: "call list \<Rightarrow> string list" where
  "opened [] = []"
| "opened (RasterOpen p # cs) = p # opened cs"
| "opened (c # cs) = opened cs"

definition CBERS_BUCKET :: string where
  "CBERS_BUCKET = ''s3://cbers-pds''"

text \<open>The template \<open>'{}/{}_BAND{}.tif'\<close> of a band's address.\<close>

definition band_address :: "string \<Rightarrow> string \<Rightarrow> string \<Rightarrow> string" where
  "band_address cbers_address sceneid band =
     cbers_address @ ''/'' @ sceneid @ ''_BAND'' @ band @ ''.tif''"

section \<open>The thread pool\<close>

text \<open>
  \<open>ThreadPoolExecutor(max_workers=w).map(fn, xs)\<close> submits one task per element and
  yields the results in the order of submission. The tasks that hold a worker thread are
  the first \<open>w\<close> tasks not yet complete; which of them completes next is not determined by
  the program, so it is read from a schedule: a list of choices, one per completion.
  \<open>run_pool\<close> returns the completed tasks (index, outcome) in the order of completion.
\<close>

definition running :: "nat \<Rightarrow> 'a list \<Rightarrow> nat" where
  "running max_workers pending = min (max 1 max_workers) (length pending)"

definition next_done :: "nat \<Rightarrow> nat list \<Rightarrow> 'a list \<Rightarrow> nat" where
  "next_done max_workers sched pending =
     (case sched of [] \<Rightarrow> 0 | c # _ \<Rightarrow> c mod running max_workers pending)"

function run_pool :: "nat \<Rightarrow> nat list \<Rightarrow> ('a \<Rightarrow> 'r) \<Rightarrow> (nat \<times> 'a) list \<Rightarrow> (nat \<times> 'r) list" where
  "run_pool max_workers sched fn pending =
     (if pending = [] then []
      else (let k = next_done max_workers sched pending
            in (fst (pending ! k), fn (snd (pending ! k)))
               # run_pool max_workers (tl sched) fn (take k pending @ drop (Suc k) pending)))"
  by pat_completeness auto
termination
proof (relation "measure (\<lambda>(w, sched, fn, pending). length pending)")
  show "wf (measure (\<lambda>(w, sched, fn :: 'a \<Rightarrow> 'r, pending :: (nat \<times> 'a) list). length pending))"
    by simp
next
  fix max_workers :: nat and sched :: "nat list" and fn :: "'a \<Rightarrow> 'r"
    and pending :: "(nat \<times> 'a) list" and k
  assume ne: "pending \<noteq> []" and k: "k = next_done max_workers sched pending"
  have "k < length pending"
  proof (cases sched)
    case Nil
    with ne k show ?thesis by (simp add: next_done_def)
  next
    case (Cons c cs)
    have pos: "0 < running max_workers pending" using ne by (simp add: running_def)
    have "c mod running max_workers pending < running max_workers pending" using pos by simp
    also have "running max_workers pending \<le> length pending" by (simp add: running_def)
    finally show ?thesis using Cons k by (simp add: next_done_def)
  qed
  then show "((max_workers, tl sched, fn, take k pending @ drop (Suc k) pending),
              (max_workers, sched, fn, pending))
        \<in> measure (\<lambda>(w, sched, fn, pending). length pending)"
    by simp
qed

declare run_pool.simps [simp del]

text \<open>
  The future of task \<open>i\<close> holds the outcome its worker stored. Every submitted task
  completes (\<open>run_pool_lookup\<close> below), so the \<open>None\<close> branch is never taken.
\<close>

definition future_result :: "(nat \<times> (exn + 'r)) list \<Rightarrow> nat \<Rightarrow> exn + 'r" where
  "future_result completed i =
     (case map_of completed i of
        Some r \<Rightarrow> r
      | None \<Rightarrow> Inl (WorkerFailure ''future never completed''))"

definition executor_map ::
  "nat \<Rightarrow> nat list \<Rightarrow> ('a \<Rightarrow> exn + 'r) \<Rightarrow> 'a list \<Rightarrow> (exn + 'r) list" where
  "executor_map max_workers sched fn xs =
     (let completed = run_pool max_workers sched fn (zip [0..<length xs] xs)
      in map (future_result completed) [0..<length xs])"

text \<open>Iterating over the results (\<open>list(...)\<close>, \<open>np.stack(...)\<close>) takes them in order and
  re-raises the exception of the first future that holds one.\<close>

fun collect :: "(exn + 'r) list \<Rightarrow> exn + 'r list" where
  "collect [] = Inr []"
| "collect (Inl e # rs) = Inl e"
| "collect (Inr v # rs) = (case collect rs of Inl e \<Rightarrow> Inl e | Inr vs \<Rightarrow> Inr (v # vs))"

text \<open>The exception that iterating over the results raises, if any: that of the first
  future, in the order of submission, that holds one.\<close>

fun first_exn :: "(exn + 'r) list \<Rightarrow> exn option" where
  "first_exn [] = None"
| "first_exn (Inl e # rs) = Some e"
| "first_exn (Inr v # rs) = first_exn rs"

text \<open>\<open>np.stack\<close> joins arrays of one shape along a new first axis; it raises
  \<open>ValueError\<close> for no array at all and for arrays of different shapes.\<close>

definition np_stack :: "ndarray list \<Rightarrow> exn + ndarray" where
  "np_stack arrays =
     (if arrays = [] then Inl (ValueError ''need at least one array to stack'')
      else if list_ex (\<lambda>a. shape a \<noteq> shape (hd arrays)) arrays
           then Inl (ValueError ''all input arrays must have the same shape'')
      else Inr (Arr arrays))"

text \<open>\<open>dict(zip(ks, vs))\<close>: the pairs are inserted in order; a key already present keeps
  its place and takes the new value.\<close>

definition dict_of_zip :: "'k list \<Rightarrow> 'v list \<Rightarrow> ('k \<times> 'v) list" where
  "dict_of_zip ks vs = foldl (\<lambda>d (k, v). AList.update k v d) [] (zip ks vs)"

section \<open>bounds\<close>

record scene_info =
  info_sceneid :: string
  info_bounds :: "real list"

definition bounds :: "env \<Rightarrow> string \<Rightarrow> (exn + scene_info) \<times> call list" where
  "bounds env sceneid =
     (case cbers_parse_scene_id (utils env) of
        None \<Rightarrow> (Inl (AttributeError ''cbers_parse_scene_id''), [])
      | Some parse \<Rightarrow>
         (case parse sceneid of
            Inl e \<Rightarrow> (Inl e, [])
          | Inr scene_params \<Rightarrow>
             (let cbers_address = CBERS_BUCKET @ ''/'' @ key scene_params;
                  path = cbers_address @ ''/'' @ sceneid @ ''_BAND5.tif''
              in case rasterio_open env path of
                   Inl e \<Rightarrow> (Inl e, [RasterOpen path])
                 | Inr src \<Rightarrow>
                    (let wgs_bounds =
                           transform_bounds env (src_crs src) ''epsg:4326'' (src_bounds src) 21
                     in (Inr \<lparr>info_sceneid = sceneid, info_bounds = list_of_bbox wgs_bounds\<rparr>,
                         [RasterOpen path,
                          TransformBounds (src_crs src) ''epsg:4326'' (src_bounds src) 21])))))"

section \<open>metadata\<close>

record scene_metadata = scene_info +
  rgbMinMax :: "(string \<times> real \<times> real) list"

definition metadata_default_pmin :: int where
  "metadata_default_pmin = 2"

definition metadata_default_pmax :: int where
  "metadata_default_pmax = 98"

definition metadata_bands :: "string list" where
  "metadata_bands = [''5'', ''6'', ''6'', ''8'']"

definition metadata ::
  "env \<Rightarrow> nat list \<Rightarrow> string \<Rightarrow> int \<Rightarrow> int \<Rightarrow> (exn + scene_metadata) \<times> call list" where
  "metadata env sched sceneid pmin pmax =
     (case cbersl_parse_scene_id (utils env) of
        None \<Rightarrow> (Inl (AttributeError ''cbersl_parse_scene_id''), [])
      | Some parse \<Rightarrow>
         (case parse sceneid of
            Inl e \<Rightarrow> (Inl e, [])
          | Inr scene_params \<Rightarrow>
             (let cbers_address = CBERS_BUCKET @ ''/'' @ key scene_params;
                  path = cbers_address @ ''/preview.jp2''
              in case rasterio_open env path of
                   Inl e \<Rightarrow> (Inl e, [RasterOpen path])
                 | Inr src \<Rightarrow>
                    (let wgs_bounds =
                           transform_bounds env (src_crs src) ''epsg:4326'' (src_bounds src) 21;
                         trace = [RasterOpen path,
                                  TransformBounds (src_crs src) ''epsg:4326'' (src_bounds src) 21];
                         bands = metadata_bands;
                         addresses =
                           map (\<lambda>band. band_address cbers_address sceneid band) bands
                     in case sentinel_min_max_worker (utils env) of
                          None \<Rightarrow> (Inl (AttributeError ''sentinel_min_max_worker''), trace)
                        | Some worker \<Rightarrow>
                           (let min_max_worker = (\<lambda>address. worker address pmin pmax)
                            in case collect (executor_map 2 sched min_max_worker addresses) of
                                 Inl e \<Rightarrow> (Inl e, trace)
                               | Inr responses \<Rightarrow>
                                  (Inr \<lparr>info_sceneid = sceneid,
                                        info_bounds = list_of_bbox wgs_bounds,
                                        rgbMinMax = dict_of_zip bands responses\<rparr>,
                                   trace))))))"

section \<open>tile\<close>

text \<open>The argument \<open>rgb\<close> is a bare string or a tuple of band identifiers.\<close>

datatype rgb_arg = RgbStr string | RgbTuple "string list"

definition tile_default_rgb :: rgb_arg where
  "tile_default_rgb = RgbTuple [''5'', ''6'', ''7'']"

definition tile_default_tilesize :: int where
  "tile_default_tilesize = 256"

text \<open>Lines 129 to 133 of the function: the addresses of the bands, the fan-out over
  three workers and the stacking of what they return.\<close>

definition tile_bands ::
  "env \<Rightarrow> nat list \<Rightarrow> string \<Rightarrow> string \<Rightarrow> bbox \<Rightarrow> string list \<Rightarrow> int \<Rightarrow> exn + ndarray" where
  "tile_bands env sched cbers_address sceneid tile_bounds rgb tilesize =
     (let addresses =
            map (\<lambda>band. band_address cbers_address sceneid band) rgb
      in case tile_band_worker (utils env) of
           None \<Rightarrow> Inl (AttributeError ''tile_band_worker'')
         | Some worker \<Rightarrow>
            (let tiler = (\<lambda>address. worker address tile_bounds tilesize)
             in case collect (executor_map 3 sched tiler addresses) of
                  Inl e \<Rightarrow> Inl e
                | Inr arrays \<Rightarrow> np_stack arrays))"

definition tile ::
  "env \<Rightarrow> nat list \<Rightarrow> string \<Rightarrow> int \<Rightarrow> int \<Rightarrow> int \<Rightarrow> rgb_arg \<Rightarrow> int
     \<Rightarrow> (exn + ndarray) \<times> call list" where
  "tile env sched sceneid tile_x tile_y tile_z rgb_arg tilesize =
     (let rgb = (case rgb_arg of RgbStr s \<Rightarrow> [s] | RgbTuple bs \<Rightarrow> bs)
      in case cbers_parse_scene_id (utils env) of
           None \<Rightarrow> (Inl (AttributeError ''cbers_parse_scene_id''), [])
         | Some parse \<Rightarrow>
            (case parse sceneid of
               Inl e \<Rightarrow> (Inl e, [])
             | Inr scene_params \<Rightarrow>
                (let cbers_address = CBERS_BUCKET @ ''/'' @ key scene_params;
                     path = cbers_address @ ''/'' @ sceneid @ ''_BAND5.tif''
                 in case rasterio_open env path of
                      Inl e \<Rightarrow> (Inl e, [RasterOpen path])
                    | Inr src \<Rightarrow>
                       (let wgs_bounds =
                              transform_bounds env (src_crs src) ''epsg:4326'' (src_bounds src) 21;
                            trace = [RasterOpen path,
                                     TransformBounds (src_crs src) ''epsg:4326'' (src_bounds src) 21]
                        in case tile_exists (utils env) of
                             None \<Rightarrow> (Inl (AttributeError ''tile_exists''), trace)
                           | Some exists \<Rightarrow>
                              (let trace = trace @ [TileExists wgs_bounds tile_z tile_x tile_y]
                               in if \<not> exists wgs_bounds tile_z tile_x tile_y
                                  then (Inl (TileOutsideBounds tile_z tile_x tile_y), trace)
                                  else (let tile_bounds = xy_bounds env tile_x tile_y tile_z
                                        in (tile_bands env sched cbers_address sceneid
                                              tile_bounds rgb tilesize,
                                            trace)))))))"

section \<open>Memoization\<close>

text \<open>
  The three functions are decorated with \<open>cachetools.func.lru_cache()\<close>, called without
  arguments, so with the decorator's defaults \<open>maxsize=128\<close> and \<open>typed=False\<close>. The
  cache is a list of (key, value) from the least to the most recently used entry. A hit
  moves the entry to the most recent end; a new entry first evicts least recently used
  entries until there is room. A call that raises stores nothing.
\<close>

type_synonym ('k, 'v) lru = "('k \<times> 'v) list"

definition lru_maxsize :: nat where
  "lru_maxsize = 128"

definition lru_get :: "'k \<Rightarrow> ('k, 'v) lru \<Rightarrow> ('v \<times> ('k, 'v) lru) option" where
  "lru_get k cache =
     (case map_of cache k of
        None \<Rightarrow> None
      | Some v \<Rightarrow> Some (v, AList.delete k cache @ [(k, v)]))"

definition lru_set :: "nat \<Rightarrow> 'k \<Rightarrow> 'v \<Rightarrow> ('k, 'v) lru \<Rightarrow> ('k, 'v) lru" where
  "lru_set maxsize k v cache =
     (if maxsize = 0 then cache
      else (let others = AList.delete k cache
            in drop (Suc (length others) - maxsize) others @ [(k, v)]))"

definition lru_cached ::
  "('k \<Rightarrow> (exn + 'v) \<times> call list) \<Rightarrow> 'k \<Rightarrow> ('k, 'v) lru
     \<Rightarrow> ((exn + 'v) \<times> call list) \<times> ('k, 'v) lru" where
  "lru_cached func k cache =
     (case lru_get k cache of
        Some (v, cache') \<Rightarrow> ((Inr v, []), cache')
      | None \<Rightarrow>
         (case func k of
            (Inl e, trace) \<Rightarrow> ((Inl e, trace), cache)
          | (Inr v, trace) \<Rightarrow> ((Inr v, trace), lru_set lru_maxsize k v cache)))"

definition bounds_cached ::
  "env \<Rightarrow> string \<Rightarrow> (string, scene_info) lru
     \<Rightarrow> ((exn + scene_info) \<times> call list) \<times> (string, scene_info) lru" where
  "bounds_cached env sceneid cache = lru_cached (bounds env) sceneid cache"

definition metadata_cached ::
  "env \<Rightarrow> nat list \<Rightarrow> string \<Rightarrow> int \<Rightarrow> int \<Rightarrow> (string \<times> int \<times> int, scene_metadata) lru
     \<Rightarrow> ((exn + scene_metadata) \<times> call list) \<times> (string \<times> int \<times> int, scene_metadata) lru" where
  "metadata_cached env sched sceneid pmin pmax cache =
     lru_cached (\<lambda>(s, lo, hi). metadata env sched s lo hi) (sceneid, pmin, pmax) cache"

definition tile_cached ::
  "env \<Rightarrow> nat list \<Rightarrow> string \<Rightarrow> int \<Rightarrow> int \<Rightarrow> int \<Rightarrow> rgb_arg \<Rightarrow> int
     \<Rightarrow> (string \<times> int \<times> int \<times> int \<times> rgb_arg \<times> int, ndarray) lru
     \<Rightarrow> ((exn + ndarray) \<times> call list)
        \<times> (string \<times> int \<times> int \<times> int \<times> rgb_arg \<times> int, ndarray) lru" where
  "tile_cached env sched sceneid tile_x tile_y tile_z rgb tilesize cache =
     lru_cached (\<lambda>(s, x, y, z, bs, ts). tile env sched s x y z bs ts)
       (sceneid, tile_x, tile_y, tile_z, rgb, tilesize) cache"

text \<open>A process makes calls one after the other, each in the world of its moment; the
  cache of \<open>bounds\<close> lives as long as the process.\<close>

fun bounds_calls ::
  "(env \<times> string) list \<Rightarrow> (string, scene_info) lru
     \<Rightarrow> (exn + scene_info) list \<times> (string, scene_info) lru" where
  "bounds_calls [] cache = ([], cache)"
| "bounds_calls ((env, sceneid) # rest) cache =
     (case bounds_cached env sceneid cache of
        ((r, trace), cache') \<Rightarrow>
          (case bounds_calls rest cache' of (rs, cache'') \<Rightarrow> (r # rs, cache'')))"

section \<open>The containment check\<close>

text \<open>
  Modelled from the spec: \<open>utils.tile_exists\<close>, which \<open>tile\<close> calls and which is not part
  of the module. The spec describes it as an overlap test of two axis-aligned boxes, the
  footprint of the tile and the bounds of the scene, in one coordinate system. The footprint
  of a tile is computed by the tile-index library and is a parameter here.
\<close>

definition boxes_intersect :: "bbox \<Rightarrow> bbox \<Rightarrow> bool" where
  "boxes_intersect a b =
     (case a of (l1, b1, r1, t1) \<Rightarrow>
        case b of (l2, b2, r2, t2) \<Rightarrow> l1 \<le> r2 \<and> l2 \<le> r1 \<and> b1 \<le> t2 \<and> b2 \<le> t1)"

definition tile_exists_spec ::
  "(int \<Rightarrow> int \<Rightarrow> int \<Rightarrow> bbox) \<Rightarrow> bbox \<Rightarrow> int \<Rightarrow> int \<Rightarrow> int \<Rightarrow> bool" where
  "tile_exists_spec footprint scene_bounds tile_z tile_x tile_y =
     boxes_intersect (footprint tile_x tile_y tile_z) scene_bounds"

text \<open>Whether an outcome is the exception \<open>TileOutsideBounds\<close>.\<close>

definition is_outside :: "exn + 'a \<Rightarrow> bool" where
  "is_outside r = (case r of Inl (TileOutsideBounds z x y) \<Rightarrow> True | _ \<Rightarrow> False)"

section \<open>A concrete world\<close>

text \<open>
  One scene of the CBERS-4 MUX camera with its four band files, whose reference band has
  the bounds of the spec's scenario, \<open>[-54, -25, -53, -24]\<close>, already geographic. The
  imported \<open>utils\<close> defines the names that \<open>bounds\<close> and \<open>tile\<close> look up, and
  \<open>sentinel_min_max_worker\<close>; it defines no \<open>cbersl_parse_scene_id\<close>.
\<close>

definition scene_0 :: string where
  "scene_0 = ''CBERS_4_MUX_20171121_057_094_L2''"

definition demo_parse :: "string \<Rightarrow> exn + scene_params" where
  "demo_parse sceneid =
     (if take 8 sceneid = ''CBERS_4_'' \<and> length sceneid = 31
      then Inr \<lparr>key = ''CBERS4/'' @ take 3 (drop 8 sceneid) @ ''/'' @ take 3 (drop 21 sceneid)
                       @ ''/'' @ take 3 (drop 25 sceneid) @ ''/'' @ sceneid\<rparr>
      else Inl ParseError)"

definition demo_raster :: raster where
  "demo_raster = \<lparr>src_crs = ''epsg:4326'', src_bounds = (-54, -25, -53, -24)\<rparr>"

definition demo_open :: "string \<Rightarrow> exn + raster" where
  "demo_open path =
     (if path \<in> set (map (band_address ''s3://cbers-pds/CBERS4/MUX/057/094/CBERS_4_MUX_20171121_057_094_L2''
                            scene_0) [''5'', ''6'', ''7'', ''8''])
      then Inr demo_raster else Inl IOError)"

text \<open>A footprint on a plain latitude/longitude grid of \<open>2 ^ z\<close> by \<open>2 ^ z\<close> tiles.\<close>

definition demo_footprint :: "int \<Rightarrow> int \<Rightarrow> int \<Rightarrow> bbox" where
  "demo_footprint x y z =
     (let n = 2 ^ nat z
      in (real_of_int x * 360 / n - 180, 90 - (real_of_int y + 1) * 180 / n,
          (real_of_int x + 1) * 360 / n - 180, 90 - real_of_int y * 180 / n))"

text \<open>A band worker that fills a \<open>tilesize\<close> by \<open>tilesize\<close> grid with the number of its
  band, and fails on the bands 9 and 0, which the scene does not have.\<close>

definition band_digit :: "string \<Rightarrow> int" where
  "band_digit address = int (of_char (hd (drop 4 (rev address)))) - 48"

definition demo_tiler :: "string \<Rightarrow> bbox \<Rightarrow> int \<Rightarrow> exn + ndarray" where
  "demo_tiler address tile_bounds tilesize =
     (if band_digit address = 9 then Inl IOError
      else if band_digit address = 0 then Inl (WorkerFailure ''no such band'')
      else Inr (Arr (replicate (nat tilesize)
                  (Arr (replicate (nat tilesize) (Px (band_digit address)))))))"

definition demo_min_max :: "string \<Rightarrow> int \<Rightarrow> int \<Rightarrow> exn + real \<times> real" where
  "demo_min_max address pmin pmax =
     Inr (real_of_int (band_digit address * pmin), real_of_int (band_digit address * pmax))"

definition demo_utils :: utils_module where
  "demo_utils =
     \<lparr>cbers_parse_scene_id = Some demo_parse,
      cbersl_parse_scene_id = None,
      sentinel_min_max_worker = Some demo_min_max,
      tile_exists = Some (tile_exists_spec demo_footprint),
      tile_band_worker = Some demo_tiler\<rparr>"

definition demo_world :: env where
  "demo_world =
     \<lparr>utils = demo_utils,
      rasterio_open = demo_open,
      transform_bounds = (\<lambda>src_crs dst_crs box densify_pts. box),
      xy_bounds = demo_footprint\<rparr>"

text \<open>
  A second world, for \<open>metadata\<close>: its \<open>utils\<close> also defines \<open>cbersl_parse_scene_id\<close>,
  as the scene-id parser, and the scene has a preview asset with the bounds of the reference
  band. In a third one the statistics of band 6 cannot be read.
\<close>

definition preview_open :: "string \<Rightarrow> exn + raster" where
  "preview_open path =
     (if path = ''s3://cbers-pds/CBERS4/MUX/057/094/CBERS_4_MUX_20171121_057_094_L2/preview.jp2''
      then Inr demo_raster else demo_open path)"

definition preview_world :: env where
  "preview_world =
     demo_world\<lparr>utils := demo_utils\<lparr>cbersl_parse_scene_id := Some demo_parse\<rparr>,
                rasterio_open := preview_open\<rparr>"

definition failing_min_max :: "string \<Rightarrow> int \<Rightarrow> int \<Rightarrow> exn + real \<times> real" where
  "failing_min_max address pmin pmax =
     (if band_digit address = 6 then Inl IOError else demo_min_max address pmin pmax)"

definition failing_world :: env where
  "failing_world =
     preview_world\<lparr>utils := demo_utils\<lparr>cbersl_parse_scene_id := Some demo_parse,
                                         sentinel_min_max_worker := Some failing_min_max\<rparr>\<rparr>"

text \<open>
  A process that asks for the bounds of \<open>scene_0\<close>, then for those of the 128 scenes of
  rows 100 to 227 of the same path, then again for those of \<open>scene_0\<close>, whose reference
  band has been replaced in the meantime. In these two worlds every reference band opens.
\<close>

definition digit3 :: "nat \<Rightarrow> string" where
  "digit3 n = [char_of (48 + n div 100 mod 10), char_of (48 + n div 10 mod 10),
               char_of (48 + n mod 10)]"

definition scene_at :: "nat \<Rightarrow> string" where
  "scene_at row = ''CBERS_4_MUX_20171121_057_'' @ digit3 row @ ''_L2''"

definition world_before :: env where
  "world_before = demo_world\<lparr>rasterio_open := (\<lambda>path. Inr demo_raster)\<rparr>"

definition world_after :: env where
  "world_after =
     demo_world\<lparr>rasterio_open := (\<lambda>path. Inr (demo_raster\<lparr>src_bounds := (-54, -25, -53, -23)\<rparr>))\<rparr>"

text \<open>What \<open>bounds\<close> computes for a scene in the world before and in the world after.\<close>

definition info_before :: "string \<Rightarrow> scene_info" where
  "info_before sceneid = \<lparr>info_sceneid = sceneid, info_bounds = [-54, -25, -53, -24]\<rparr>"

definition info_after :: "string \<Rightarrow> scene_info" where
  "info_after sceneid = \<lparr>info_sceneid = sceneid, info_bounds = [-54, -25, -53, -23]\<rparr>"

definition eviction_run :: "(env \<times> string) list" where
  "eviction_run =
     (world_before, scene_0) # map (Pair world_before) (map scene_at [100..<228])
       @ [(world_after, scene_0)]"

section \<open>The thread pool returns results in the order of submission\<close>

lemma next_done_less: "pending \<noteq> [] \<Longrightarrow> next_done w sched pending < length pending"
  by (cases sched) (auto simp: next_done_def running_def min_def intro: less_le_trans [OF mod_less_divisor])

lemma map_of_drop_entry:
  "distinct (map fst (as @ p # bs)) \<Longrightarrow>
   map_of (as @ bs) = (map_of (as @ p # bs))(fst p := None)"
proof (induction as)
  case Nil
  have "fst p \<notin> fst ` set bs" using Nil by simp
  then have "map_of bs (fst p) = None" by (simp add: map_of_eq_None_iff)
  then show ?case by (cases p) (auto simp: fun_eq_iff)
next
  case (Cons a as)
  then have "fst a \<noteq> fst p" by auto
  with Cons show ?case by (cases a) (auto simp: fun_eq_iff)
qed

lemma run_pool_lookup:
  "distinct (map fst pending) \<Longrightarrow>
   map_of (run_pool w sched fn pending) i = map_option fn (map_of pending i)"
proof (induction w sched fn pending rule: run_pool.induct)
  case (1 w sched fn pending)
  show ?case
  proof (cases "pending = []")
    case True
    then show ?thesis by (simp add: run_pool.simps)
  next
    case False
    define k where "k = next_done w sched pending"
    have k: "k < length pending" using next_done_less [OF False] by (simp add: k_def)
    define rest where "rest = take k pending @ drop (Suc k) pending"
    have split: "pending = take k pending @ pending ! k # drop (Suc k) pending"
      using k by (rule id_take_nth_drop)
    have dsplit: "distinct (map fst (take k pending @ pending ! k # drop (Suc k) pending))"
      using "1.prems" split by simp
    have drest: "distinct (map fst rest)"
      using dsplit unfolding rest_def by auto
    have IH: "map_of (run_pool w (tl sched) fn rest) i = map_option fn (map_of rest i)"
      using "1.IH" [OF False k_def] drest unfolding rest_def by simp
    have unfold: "run_pool w sched fn pending =
        (fst (pending ! k), fn (snd (pending ! k))) # run_pool w (tl sched) fn rest"
      using False by (subst run_pool.simps) (simp add: k_def rest_def Let_def)
    have at_k: "map_of pending (fst (pending ! k)) = Some (snd (pending ! k))"
      using "1.prems" k by simp
    have others: "map_of rest = (map_of pending)(fst (pending ! k) := None)"
      using map_of_drop_entry [OF dsplit] split unfolding rest_def by simp
    show ?thesis
      unfolding unfold using IH at_k others by simp
  qed
qed

lemma executor_map_eq: "executor_map w sched fn xs = map fn xs"
proof (rule nth_equalityI)
  show "length (executor_map w sched fn xs) = length (map fn xs)"
    by (simp add: executor_map_def)
next
  fix i assume "i < length (executor_map w sched fn xs)"
  then have i: "i < length xs" by (simp add: executor_map_def)
  have d: "distinct (map fst (zip [0..<length xs] xs))" by simp
  have "map_of (zip [0..<length xs] xs) i = Some (xs ! i)"
    using i by (simp add: set_zip) (rule exI [of _ i], simp)
  then have "map_of (run_pool w sched fn (zip [0..<length xs] xs)) i = Some (fn (xs ! i))"
    using run_pool_lookup [OF d, of w sched fn i] by simp
  then show "executor_map w sched fn xs ! i = map fn xs ! i"
    using i by (simp add: executor_map_def future_result_def)
qed

lemma collect_map_Inr_id: "collect (map Inr vs) = Inr vs"
  by (induction vs) simp_all

lemma collect_Inr_D: "collect rs = Inr vs \<Longrightarrow> rs = map Inr vs"
  by (induction rs arbitrary: vs rule: collect.induct) (auto split: sum.splits)

lemma collect_Inr_iff: "collect rs = Inr vs \<longleftrightarrow> rs = map Inr vs"
  using collect_map_Inr_id collect_Inr_D by blast

lemma collect_map_Inr: "collect (map f xs) = Inr vs \<Longrightarrow> map f xs = map Inr vs"
  by (simp add: collect_Inr_iff)

lemma collect_first_failure:
  "i < length rs \<Longrightarrow> rs ! i = Inl e \<Longrightarrow> (\<forall>j<i. \<exists>v. rs ! j = Inr v) \<Longrightarrow> collect rs = Inl e"
proof (induction rs arbitrary: i rule: collect.induct)
  case 1
  then show ?case by simp
next
  case (2 e' rs)
  then show ?case by (cases i) auto
next
  case (3 v rs)
  show ?case
  proof (cases i)
    case 0
    with 3 show ?thesis by simp
  next
    case (Suc n)
    have "collect rs = Inl e"
    proof (rule "3.IH")
      show "n < length rs" using "3.prems" Suc by simp
      show "rs ! n = Inl e" using "3.prems" Suc by simp
      show "\<forall>j<n. \<exists>v. rs ! j = Inr v"
      proof (intro allI impI)
        fix j assume "j < n"
        then have "Suc j < i" using Suc by simp
        then have "\<exists>v'. (Inr v # rs) ! Suc j = Inr v'" using "3.prems"(3) by blast
        then show "\<exists>v. rs ! j = Inr v" by simp
      qed
    qed
    then show ?thesis by simp
  qed
qed

lemma tile_bands_eq:
  "tile_bands env sched cbers_address sceneid tile_bounds rgb tilesize =
     (case tile_band_worker (utils env) of
        None \<Rightarrow> Inl (AttributeError ''tile_band_worker'')
      | Some worker \<Rightarrow>
         (case collect (map (\<lambda>band. worker (band_address cbers_address sceneid band)
                                        tile_bounds tilesize) rgb) of
            Inl e \<Rightarrow> Inl e
          | Inr arrays \<Rightarrow> np_stack arrays))"
  by (simp add: tile_bands_def executor_map_eq Let_def comp_def split: option.splits)


lemma first_exn_collect: "first_exn rs = Some e \<Longrightarrow> collect rs = Inl e"
  by (induction rs rule: first_exn.induct) auto

lemma collect_Inl_mem: "collect rs = Inl e \<Longrightarrow> Inl e \<in> set rs"
  by (induction rs rule: collect.induct) (auto split: sum.splits)

lemma tile_bands_not_outside:
  assumes "\<And>worker band. tile_band_worker (utils env) = Some worker \<Longrightarrow> band \<in> set rgb \<Longrightarrow>
             \<not> is_outside (worker (band_address cbers_address sceneid band) tile_bounds tilesize)"
  shows "\<not> is_outside (tile_bands env sched cbers_address sceneid tile_bounds rgb tilesize)"
proof (cases "tile_band_worker (utils env)")
  case None
  then show ?thesis by (simp add: tile_bands_eq is_outside_def)
next
  case (Some worker)
  let ?rs = "map (\<lambda>band. worker (band_address cbers_address sceneid band) tile_bounds tilesize) rgb"
  show ?thesis
  proof (cases "collect ?rs")
    case (Inl e)
    then have "Inl e \<in> set ?rs" by (rule collect_Inl_mem)
    then obtain band where "band \<in> set rgb"
      and "worker (band_address cbers_address sceneid band) tile_bounds tilesize = Inl e"
      by auto
    then have "\<not> is_outside (Inl e :: exn + ndarray)" using assms [OF Some] by metis
    then show ?thesis using Some Inl by (simp add: tile_bands_eq is_outside_def)
  next
    case (Inr arrays)
    then show ?thesis using Some by (simp add: tile_bands_eq is_outside_def np_stack_def)
  qed
qed


lemma np_stack_Inr:
  assumes "np_stack arrays = Inr out"
  shows "out = Arr arrays \<and> arrays \<noteq> [] \<and> (\<forall>a\<in>set arrays. shape a = shape (hd arrays))"
proof -
  have ne: "arrays \<noteq> []"
    using assms by (cases "arrays = []") (simp_all add: np_stack_def)
  have nex: "\<not> list_ex (\<lambda>a. shape a \<noteq> shape (hd arrays)) arrays"
    using assms ne
    by (cases "list_ex (\<lambda>a. shape a \<noteq> shape (hd arrays)) arrays") (simp_all add: np_stack_def)
  have out: "out = Arr arrays" using assms ne nex by (simp add: np_stack_def)
  have "\<forall>a\<in>set arrays. shape a = shape (hd arrays)"
    using nex unfolding list_ex_iff by blast
  then show ?thesis using ne out by blast
qed

lemma np_stack_same_shape:
  assumes "arrays \<noteq> []" and "\<forall>a\<in>set arrays. shape a = s"
  shows "np_stack arrays = Inr (Arr arrays)"
proof -
  have "hd arrays \<in> set arrays" using assms(1) by simp
  then have "shape (hd arrays) = s" using assms(2) by blast
  then have "\<not> list_ex (\<lambda>a. shape a \<noteq> shape (hd arrays)) arrays"
    using assms(2) unfolding list_ex_iff by blast
  then show ?thesis using assms(1) by (simp add: np_stack_def)
qed


lemma dict_of_zip_lookup_gen:
  "map_of (foldl (\<lambda>d (k, v). AList.update k v d) d kvs) = map_of (rev kvs @ d)"
proof (induction kvs arbitrary: d)
  case Nil
  show ?case by simp
next
  case (Cons kv kvs)
  obtain k v where kv: "kv = (k, v)" by (cases kv)
  show ?case
    unfolding kv by (simp add: Cons.IH update_conv' fun_eq_iff map_add_def split: option.split)
qed

lemma dict_of_zip_lookup: "map_of (dict_of_zip ks vs) = map_of (rev (zip ks vs))"
  by (simp add: dict_of_zip_def dict_of_zip_lookup_gen)

lemma dict_of_zip_distinct_gen:
  "distinct (map fst d) \<Longrightarrow> distinct (map fst (foldl (\<lambda>d (k, v). AList.update k v d) d kvs))"
proof (induction kvs arbitrary: d)
  case Nil
  then show ?case by simp
next
  case (Cons kv kvs)
  obtain k v where kv: "kv = (k, v)" by (cases kv)
  have "distinct (map fst (AList.update k v d))" using Cons.prems by (rule distinct_update)
  then show ?case unfolding kv using Cons.IH by simp
qed

lemma dict_of_zip_distinct: "distinct (map fst (dict_of_zip ks vs))"
  by (simp add: dict_of_zip_def dict_of_zip_distinct_gen)


lemmas demo_defs = demo_world_def demo_utils_def scene_0_def demo_parse_def demo_open_def
  CBERS_BUCKET_def band_address_def demo_raster_def list_of_bbox_def

lemmas demo_eval = demo_defs tile_def tile_bands_eq Let_def tile_exists_spec_def
  boxes_intersect_def demo_footprint_def demo_tiler_def band_digit_def np_stack_def

lemmas metadata_eval = metadata_def executor_map_eq preview_world_def preview_open_def
  failing_world_def failing_min_max_def demo_defs demo_min_max_def band_digit_def
  dict_of_zip_def metadata_bands_def Let_def


section \<open>Properties of bounds\<close>

text \<open>
  Claim C9. For a scene id that the parser accepts, \<open>bounds\<close> opens exactly one raster,
  the file of band 5 under the scene's address, and when it opens, the result holds the
  raster's native bounds transformed from the raster's crs to \<open>epsg:4326\<close> with
  \<open>densify_pts = 21\<close>; these are the only two calls it makes.
\<close>

theorem bounds_opens_reference_band:
  assumes "cbers_parse_scene_id (utils env) = Some parse"
    and "parse sceneid = Inr p"
  shows "opened (snd (bounds env sceneid))
           = [''s3://cbers-pds/'' @ key p @ ''/'' @ sceneid @ ''_BAND5.tif'']
       \<and> (\<forall>src. rasterio_open env (''s3://cbers-pds/'' @ key p @ ''/'' @ sceneid @ ''_BAND5.tif'')
                   = Inr src \<longrightarrow>
            bounds env sceneid =
              (Inr \<lparr>info_sceneid = sceneid,
                    info_bounds = list_of_bbox
                      (transform_bounds env (src_crs src) ''epsg:4326'' (src_bounds src) 21)\<rparr>,
               [RasterOpen (''s3://cbers-pds/'' @ key p @ ''/'' @ sceneid @ ''_BAND5.tif''),
                TransformBounds (src_crs src) ''epsg:4326'' (src_bounds src) 21]))"
  using assms by (auto simp: bounds_def CBERS_BUCKET_def Let_def split: sum.splits)

theorem bounds_opens_reference_band_witness:
  "opened (snd (bounds demo_world scene_0))
     = [''s3://cbers-pds/CBERS4/MUX/057/094/CBERS_4_MUX_20171121_057_094_L2/CBERS_4_MUX_20171121_057_094_L2_BAND5.tif'']
   \<and> bounds demo_world scene_0 =
       (Inr \<lparr>info_sceneid = scene_0, info_bounds = [-54, -25, -53, -24]\<rparr>,
        [RasterOpen ''s3://cbers-pds/CBERS4/MUX/057/094/CBERS_4_MUX_20171121_057_094_L2/CBERS_4_MUX_20171121_057_094_L2_BAND5.tif'',
         TransformBounds ''epsg:4326'' ''epsg:4326'' (-54, -25, -53, -24) 21])"
proof -
  have a: "cbers_parse_scene_id (utils demo_world) = Some demo_parse"
    by (simp add: demo_world_def demo_utils_def)
  have b: "demo_parse scene_0 = Inr \<lparr>key = ''CBERS4/MUX/057/094/CBERS_4_MUX_20171121_057_094_L2''\<rparr>"
    by (simp add: demo_parse_def scene_0_def)
  have c: "rasterio_open demo_world
      (''s3://cbers-pds/'' @ key \<lparr>key = ''CBERS4/MUX/057/094/CBERS_4_MUX_20171121_057_094_L2''\<rparr> @ ''/'' @ scene_0 @ ''_BAND5.tif'') = Inr demo_raster"
    by (simp add: demo_defs)
  show ?thesis
    using bounds_opens_reference_band [OF a b] c
    by (simp add: demo_defs)
qed

section \<open>Properties of tile\<close>


text \<open>
  Claim C10. \<open>tile\<close> with the empty tuple of bands never returns an array: whatever the
  scene id and the tile, the call raises.
\<close>

theorem tile_no_bands_raises:
  "\<exists>e. fst (tile env sched sceneid tile_x tile_y tile_z (RgbTuple []) tilesize) = Inl e"
  by (simp add: tile_def tile_bands_eq np_stack_def Let_def
           split: option.splits sum.splits)

text \<open>
  Claim C7. The first step of \<open>tile\<close> computes the bounds of the scene as \<open>bounds\<close> does:
  where \<open>bounds\<close> raises, \<open>tile\<close> raises the same exception after the same calls; where
  \<open>bounds\<close> returns, \<open>tile\<close> makes the same calls (the same file opened, the same transform)
  and hands to the containment check the bounds that \<open>bounds\<close> reports.
\<close>

theorem tile_bounds_as_bounds:
  "(\<forall>e. fst (bounds env sceneid) = Inl e \<longrightarrow>
        tile env sched sceneid tile_x tile_y tile_z rgb tilesize = (Inl e, snd (bounds env sceneid)))
   \<and> (\<forall>info exists. fst (bounds env sceneid) = Inr info \<longrightarrow> tile_exists (utils env) = Some exists \<longrightarrow>
        (\<exists>wgs_bounds.
           snd (tile env sched sceneid tile_x tile_y tile_z rgb tilesize)
             = snd (bounds env sceneid) @ [TileExists wgs_bounds tile_z tile_x tile_y]
           \<and> list_of_bbox wgs_bounds = info_bounds info))"
  by (auto simp: bounds_def tile_def Let_def simp del: split_paired_Ex split: option.splits sum.splits)

theorem tile_bounds_as_bounds_witness:
  "fst (bounds demo_world ''nonsense'') = Inl ParseError
   \<and> tile demo_world [] ''nonsense'' 359 651 10 tile_default_rgb 2 = (Inl ParseError, [])
   \<and> fst (bounds demo_world scene_0)
       = Inr \<lparr>info_sceneid = scene_0, info_bounds = [-54, -25, -53, -24]\<rparr>
   \<and> tile_exists (utils demo_world) = Some (tile_exists_spec demo_footprint)
   \<and> snd (tile demo_world [] scene_0 359 651 10 tile_default_rgb 2)
       = snd (bounds demo_world scene_0) @ [TileExists (-54, -25, -53, -24) 10 359 651]"
  using tile_bounds_as_bounds [of demo_world "''nonsense''" "[]" 359 651 10 tile_default_rgb 2]
    tile_bounds_as_bounds [of demo_world scene_0 "[]" 359 651 10 tile_default_rgb 2]
  by (simp add: demo_defs bounds_def tile_def tile_default_rgb_def tile_exists_spec_def
        boxes_intersect_def demo_footprint_def Let_def)

text \<open>
  Claim C1. With the containment check of the spec (the tile exists when its footprint
  and the bounds of the scene intersect), for a scene whose id parses and whose reference
  band opens: when the footprint of the tile is disjoint from the bounds of the scene,
  \<open>tile\<close> raises \<open>TileOutsideBounds\<close>; when it intersects them, \<open>tile\<close> goes on to
  the band reads and returns what they return, which is no \<open>TileOutsideBounds\<close> unless a
  band worker raises one.
\<close>

theorem tile_outside_bounds_iff_disjoint:
  assumes "cbers_parse_scene_id (utils env) = Some parse"
    and "parse sceneid = Inr p"
    and "rasterio_open env (''s3://cbers-pds/'' @ key p @ ''/'' @ sceneid @ ''_BAND5.tif'') = Inr src"
    and "tile_exists (utils env) = Some (tile_exists_spec footprint)"
    and "wgs_bounds = transform_bounds env (src_crs src) ''epsg:4326'' (src_bounds src) 21"
  shows "(\<not> boxes_intersect (footprint tile_x tile_y tile_z) wgs_bounds \<longrightarrow>
            fst (tile env sched sceneid tile_x tile_y tile_z (RgbTuple rgb) tilesize)
              = Inl (TileOutsideBounds tile_z tile_x tile_y))
       \<and> (boxes_intersect (footprint tile_x tile_y tile_z) wgs_bounds \<longrightarrow>
            fst (tile env sched sceneid tile_x tile_y tile_z (RgbTuple rgb) tilesize)
              = tile_bands env sched (''s3://cbers-pds/'' @ key p) sceneid
                  (xy_bounds env tile_x tile_y tile_z) rgb tilesize
            \<and> ((\<forall>worker band. tile_band_worker (utils env) = Some worker \<longrightarrow> band \<in> set rgb \<longrightarrow>
                   \<not> is_outside (worker (band_address (''s3://cbers-pds/'' @ key p) sceneid band)
                                  (xy_bounds env tile_x tile_y tile_z) tilesize))
                 \<longrightarrow> \<not> is_outside (fst (tile env sched sceneid tile_x tile_y tile_z
                                          (RgbTuple rgb) tilesize))))"
proof -
  have out: "\<not> boxes_intersect (footprint tile_x tile_y tile_z) wgs_bounds \<Longrightarrow>
      fst (tile env sched sceneid tile_x tile_y tile_z (RgbTuple rgb) tilesize)
        = Inl (TileOutsideBounds tile_z tile_x tile_y)"
    using assms by (simp add: tile_def CBERS_BUCKET_def Let_def tile_exists_spec_def)
  have inside: "boxes_intersect (footprint tile_x tile_y tile_z) wgs_bounds \<Longrightarrow>
      fst (tile env sched sceneid tile_x tile_y tile_z (RgbTuple rgb) tilesize)
        = tile_bands env sched (''s3://cbers-pds/'' @ key p) sceneid
            (xy_bounds env tile_x tile_y tile_z) rgb tilesize"
    using assms by (simp add: tile_def CBERS_BUCKET_def Let_def tile_exists_spec_def)
  show ?thesis
    using out inside tile_bands_not_outside [of env rgb "''s3://cbers-pds/'' @ key p" sceneid
        "xy_bounds env tile_x tile_y tile_z" tilesize sched]
    by auto
qed

theorem tile_outside_bounds_iff_disjoint_witness:
  "\<not> boxes_intersect (demo_footprint 0 0 10) (-54, -25, -53, -24)
   \<and> fst (tile demo_world [] scene_0 0 0 10 (RgbTuple [''7'', ''6'', ''5'']) 1)
       = Inl (TileOutsideBounds 10 0 0)
   \<and> boxes_intersect (demo_footprint 359 651 10) (-54, -25, -53, -24)
   \<and> fst (tile demo_world [] scene_0 359 651 10 (RgbTuple [''7'', ''6'', ''5'']) 1)
       = Inr (Arr [Arr [Arr [Px 7]], Arr [Arr [Px 6]], Arr [Arr [Px 5]]])
   \<and> \<not> is_outside (fst (tile demo_world [] scene_0 359 651 10 (RgbTuple [''7'', ''6'', ''5'']) 1))"
proof -
  let ?p = "\<lparr>key = ''CBERS4/MUX/057/094/CBERS_4_MUX_20171121_057_094_L2''\<rparr>"
  have a: "cbers_parse_scene_id (utils demo_world) = Some demo_parse"
    by (simp add: demo_world_def demo_utils_def)
  have b: "demo_parse scene_0 = Inr ?p"
    by (simp add: demo_parse_def scene_0_def)
  have c: "rasterio_open demo_world
      (''s3://cbers-pds/'' @ key ?p @ ''/'' @ scene_0 @ ''_BAND5.tif'') = Inr demo_raster"
    by (simp add: demo_defs)
  have d: "tile_exists (utils demo_world) = Some (tile_exists_spec demo_footprint)"
    by (simp add: demo_world_def demo_utils_def)
  have e: "(-54, -25, -53, -24)
      = transform_bounds demo_world (src_crs demo_raster) ''epsg:4326'' (src_bounds demo_raster) 21"
    by (simp add: demo_world_def demo_raster_def)
  have far: "\<not> boxes_intersect (demo_footprint 0 0 10) (-54, -25, -53, -24)"
    by (simp add: boxes_intersect_def demo_footprint_def)
  have near: "boxes_intersect (demo_footprint 359 651 10) (-54, -25, -53, -24)"
    by (simp add: boxes_intersect_def demo_footprint_def)
  have bands: "tile_bands demo_world [] (''s3://cbers-pds/'' @ key ?p) scene_0
      (xy_bounds demo_world 359 651 10) [''7'', ''6'', ''5''] 1
      = Inr (Arr [Arr [Arr [Px 7]], Arr [Arr [Px 6]], Arr [Arr [Px 5]]])"
    by (simp add: demo_eval)
  have quiet: "\<forall>worker band. tile_band_worker (utils demo_world) = Some worker \<longrightarrow>
      band \<in> set [''7'', ''6'', ''5''] \<longrightarrow>
      \<not> is_outside (worker (band_address (''s3://cbers-pds/'' @ key ?p) scene_0 band)
                      (xy_bounds demo_world 359 651 10) 1)"
    by (simp add: demo_eval is_outside_def)
  note outside = tile_outside_bounds_iff_disjoint
      [OF a b c d e, of 0 0 10 "[]" "[''7'', ''6'', ''5'']" 1, THEN conjunct1, THEN mp, OF far]
  note inside = tile_outside_bounds_iff_disjoint
      [OF a b c d e, of 359 651 10 "[]" "[''7'', ''6'', ''5'']" 1, THEN conjunct2, THEN mp, OF near]
  note r2 = trans [OF inside [THEN conjunct1] bands]
  note r3 = inside [THEN conjunct2, THEN mp, OF quiet]
  show ?thesis
    by (intro conjI) (rule far outside near r2 r3)+
qed

text \<open>
  Claim C2. When \<open>tile\<close> returns an array for the bands \<open>rgb\<close>, the array is the stack of
  the grids of the band workers in the order of \<open>rgb\<close>: its i-th element is what the worker
  returns for the i-th band, whatever the order in which the workers complete. For any
  permutation of the bands, \<open>tile\<close> returns the same grids permuted the same way.
\<close>

theorem tile_band_order:
  assumes ok: "fst (tile env sched sceneid tile_x tile_y tile_z (RgbTuple rgb) tilesize) = Inr out"
  shows "\<exists>parse p worker grids.
      cbers_parse_scene_id (utils env) = Some parse \<and> parse sceneid = Inr p
    \<and> tile_band_worker (utils env) = Some worker
    \<and> out = Arr grids \<and> length grids = length rgb
    \<and> (\<forall>i<length rgb.
          worker (band_address (''s3://cbers-pds/'' @ key p) sceneid (rgb ! i))
            (xy_bounds env tile_x tile_y tile_z) tilesize = Inr (grids ! i))
    \<and> (\<forall>perm sched'. mset perm = mset [0..<length rgb] \<longrightarrow>
          fst (tile env sched' sceneid tile_x tile_y tile_z (RgbTuple (map ((!) rgb) perm)) tilesize)
            = Inr (Arr (map ((!) grids) perm)))"
proof -
  obtain parse where parse1: "cbers_parse_scene_id (utils env) = Some parse"
    using ok by (cases "cbers_parse_scene_id (utils env)") (simp_all add: tile_def)
  obtain p where parse2: "parse sceneid = Inr p"
    using ok parse1 by (cases "parse sceneid") (simp_all add: tile_def)
  note parse = parse1 parse2
  obtain src where src:
    "rasterio_open env (CBERS_BUCKET @ ''/'' @ key p @ ''/'' @ sceneid @ ''_BAND5.tif'') = Inr src"
    using ok parse
    by (cases "rasterio_open env (CBERS_BUCKET @ ''/'' @ key p @ ''/'' @ sceneid @ ''_BAND5.tif'')")
       (simp_all add: tile_def Let_def)
  obtain exists where ex1: "tile_exists (utils env) = Some exists"
    using ok parse src by (cases "tile_exists (utils env)") (simp_all add: tile_def Let_def)
  have ex2: "exists (transform_bounds env (src_crs src) ''epsg:4326'' (src_bounds src) 21)
      tile_z tile_x tile_y"
    using ok parse src ex1
    by (cases "exists (transform_bounds env (src_crs src) ''epsg:4326'' (src_bounds src) 21)
      tile_z tile_x tile_y") (simp_all add: tile_def Let_def)
  note ex = ex1 ex2
  have bands: "tile_bands env sched (CBERS_BUCKET @ ''/'' @ key p) sceneid
        (xy_bounds env tile_x tile_y tile_z) rgb tilesize = Inr out"
    using ok parse src ex by (simp add: tile_def Let_def)
  have step: "\<And>bs s. fst (tile env s sceneid tile_x tile_y tile_z (RgbTuple bs) tilesize)
      = tile_bands env s (CBERS_BUCKET @ ''/'' @ key p) sceneid
          (xy_bounds env tile_x tile_y tile_z) bs tilesize"
    using parse src ex by (simp add: tile_def Let_def)
  obtain worker where w: "tile_band_worker (utils env) = Some worker"
    using bands by (cases "tile_band_worker (utils env)") (simp_all add: tile_bands_eq)
  let ?g = "\<lambda>band. worker (band_address (CBERS_BUCKET @ ''/'' @ key p) sceneid band)
        (xy_bounds env tile_x tile_y tile_z) tilesize"
  obtain grids where col: "collect (map ?g rgb) = Inr grids"
    using bands w by (cases "collect (map ?g rgb)") (simp_all add: tile_bands_eq)
  have st: "np_stack grids = Inr out"
    using bands w col by (simp add: tile_bands_eq)
  have m: "map ?g rgb = map Inr grids" using col by (rule collect_Inr_D)
  have len: "length grids = length rgb" using arg_cong [OF m, of length] by simp
  have nth: "\<And>i. i < length rgb \<Longrightarrow> ?g (rgb ! i) = Inr (grids ! i)"
  proof -
    fix i assume i: "i < length rgb"
    have "map ?g rgb ! i = map Inr grids ! i" using m by simp
    then show "?g (rgb ! i) = Inr (grids ! i)" using i len by simp
  qed
  note stacked = np_stack_Inr [OF st]
  have out: "out = Arr grids" by (rule stacked [THEN conjunct1])
  have ne: "grids \<noteq> []" by (rule stacked [THEN conjunct2, THEN conjunct1])
  have sh: "\<forall>a\<in>set grids. shape a = shape (hd grids)"
    by (rule stacked [THEN conjunct2, THEN conjunct2])
  have permuted: "fst (tile env sched' sceneid tile_x tile_y tile_z (RgbTuple (map ((!) rgb) perm)) tilesize)
            = Inr (Arr (map ((!) grids) perm))"
    if pm: "mset perm = mset [0..<length rgb]" for perm sched'
  proof -
    have sp: "set perm = {0..<length rgb}" using mset_eq_setD [OF pm] by simp
    have lp: "length perm = length rgb" using mset_eq_length [OF pm] by simp
    have pne: "perm \<noteq> []" using lp len ne by auto
    have inr: "\<And>i. i \<in> set perm \<Longrightarrow> i < length rgb" using sp by simp
    have "map ?g (map ((!) rgb) perm) = map Inr (map ((!) grids) perm)"
      using inr nth by simp
    then have c2: "collect (map ?g (map ((!) rgb) perm)) = Inr (map ((!) grids) perm)"
      by (simp only: collect_map_Inr_id)
    have "\<forall>a\<in>set (map ((!) grids) perm). shape a = shape (hd grids)"
    proof
      fix a assume "a \<in> set (map ((!) grids) perm)"
      then obtain i where "i \<in> set perm" and a: "a = grids ! i" by auto
      then have "i < length grids" using inr len by simp
      then have "a \<in> set grids" using a by simp
      then show "shape a = shape (hd grids)" using sh by blast
    qed
    moreover have "map ((!) grids) perm \<noteq> []" using pne by simp
    ultimately have "np_stack (map ((!) grids) perm) = Inr (Arr (map ((!) grids) perm))"
      by (rule np_stack_same_shape [rotated])
    then show ?thesis using c2 w by (simp add: step tile_bands_eq)
  qed
  have key: "CBERS_BUCKET @ ''/'' @ key p = ''s3://cbers-pds/'' @ key p"
    by (simp add: CBERS_BUCKET_def)
  show ?thesis
  proof (intro exI conjI allI impI)
    show "cbers_parse_scene_id (utils env) = Some parse" by (rule parse1)
    show "parse sceneid = Inr p" by (rule parse2)
    show "tile_band_worker (utils env) = Some worker" by (rule w)
    show "out = Arr grids" by (rule out)
    show "length grids = length rgb" by (rule len)
  next
    fix i assume "i < length rgb"
    then show "worker (band_address (''s3://cbers-pds/'' @ key p) sceneid (rgb ! i))
            (xy_bounds env tile_x tile_y tile_z) tilesize = Inr (grids ! i)"
      using nth [of i] by (simp only: key)
  next
    fix perm sched' assume "mset perm = mset [0..<length rgb]"
    then show "fst (tile env sched' sceneid tile_x tile_y tile_z (RgbTuple (map ((!) rgb) perm)) tilesize)
            = Inr (Arr (map ((!) grids) perm))"
      by (rule permuted)
  qed
qed

theorem tile_band_order_witness:
  "fst (tile demo_world [2, 0, 1] scene_0 359 651 10 (RgbTuple [''7'', ''6'', ''5'']) 1)
     = Inr (Arr [Arr [Arr [Px 7]], Arr [Arr [Px 6]], Arr [Arr [Px 5]]])
   \<and> fst (tile demo_world [] scene_0 359 651 10 (RgbTuple [''5'', ''6'', ''7'']) 1)
     = Inr (Arr [Arr [Arr [Px 5]], Arr [Arr [Px 6]], Arr [Arr [Px 7]]])"
proof -
  let ?rgb = "[''7'', ''6'', ''5'']"
  let ?out = "Arr [Arr [Arr [Px 7]], Arr [Arr [Px 6]], Arr [Arr [Px 5]]]"
  have h: "fst (tile demo_world [2, 0, 1] scene_0 359 651 10 (RgbTuple ?rgb) 1) = Inr ?out"
    by (simp add: demo_eval)
  from tile_band_order [OF h] obtain grids where g: "?out = Arr grids"
    and p: "\<forall>perm sched'. mset perm = mset [0..<length ?rgb] \<longrightarrow>
          fst (tile demo_world sched' scene_0 359 651 10 (RgbTuple (map ((!) ?rgb) perm)) 1)
            = Inr (Arr (map ((!) grids) perm))"
    by blast
  have m: "mset [2, 1, 0 :: nat] = mset [0..<length ?rgb]"
    by (simp add: upt_rec add_mset_commute)
  have q: "fst (tile demo_world [] scene_0 359 651 10 (RgbTuple (map ((!) ?rgb) [2, 1, 0])) 1)
            = Inr (Arr (map ((!) grids) [2, 1, 0]))"
    using p m by blast
  have gs: "grids = [Arr [Arr [Px 7]], Arr [Arr [Px 6]], Arr [Arr [Px 5]]]"
    using g by simp
  have l: "map ((!) ?rgb) [2, 1, 0] = [''5'', ''6'', ''7'']" by simp
  have r: "map ((!) grids) [2, 1, 0] = [Arr [Arr [Px 5]], Arr [Arr [Px 6]], Arr [Arr [Px 7]]]"
    by (simp add: gs)
  show ?thesis using h q unfolding l r by (rule conjI)
qed

section \<open>Properties of metadata\<close>




section \<open>Failures of the band workers\<close>

text \<open>
  Claim C8. When the steps before the fan-out pass and some band worker raises, \<open>tile\<close>
  and \<open>metadata\<close> raise the exception of the first failing worker in the order of the
  bands, whatever the order of completion; so neither returns an array or a mapping built
  from the bands that succeeded.
\<close>

theorem worker_failure_aborts_call:
  "(cbers_parse_scene_id (utils env) = Some parse \<and> parse sceneid = Inr p
      \<and> rasterio_open env (''s3://cbers-pds/'' @ key p @ ''/'' @ sceneid @ ''_BAND5.tif'') = Inr src
      \<and> tile_exists (utils env) = Some exists
      \<and> exists (transform_bounds env (src_crs src) ''epsg:4326'' (src_bounds src) 21)
           tile_z tile_x tile_y
      \<and> tile_band_worker (utils env) = Some worker
      \<and> first_exn (map (\<lambda>band. worker (band_address (''s3://cbers-pds/'' @ key p) sceneid band)
                                 (xy_bounds env tile_x tile_y tile_z) tilesize) rgb) = Some e
    \<longrightarrow> fst (tile env sched sceneid tile_x tile_y tile_z (RgbTuple rgb) tilesize) = Inl e)
   \<and> (cbersl_parse_scene_id (utils env) = Some parse' \<and> parse' sceneid = Inr p'
      \<and> rasterio_open env (''s3://cbers-pds/'' @ key p' @ ''/preview.jp2'') = Inr src'
      \<and> sentinel_min_max_worker (utils env) = Some worker'
      \<and> first_exn (map (\<lambda>band. worker' (band_address (''s3://cbers-pds/'' @ key p') sceneid band)
                                 pmin pmax) metadata_bands) = Some e'
    \<longrightarrow> fst (metadata env sched sceneid pmin pmax) = Inl e')"
proof (intro conjI impI)
  assume a: "cbers_parse_scene_id (utils env) = Some parse \<and> parse sceneid = Inr p
      \<and> rasterio_open env (''s3://cbers-pds/'' @ key p @ ''/'' @ sceneid @ ''_BAND5.tif'') = Inr src
      \<and> tile_exists (utils env) = Some exists
      \<and> exists (transform_bounds env (src_crs src) ''epsg:4326'' (src_bounds src) 21)
           tile_z tile_x tile_y
      \<and> tile_band_worker (utils env) = Some worker
      \<and> first_exn (map (\<lambda>band. worker (band_address (''s3://cbers-pds/'' @ key p) sceneid band)
                                 (xy_bounds env tile_x tile_y tile_z) tilesize) rgb) = Some e"
  then have "collect (map (\<lambda>band. worker (band_address (''s3://cbers-pds/'' @ key p) sceneid band)
                                 (xy_bounds env tile_x tile_y tile_z) tilesize) rgb) = Inl e"
    by (intro first_exn_collect) simp
  then show "fst (tile env sched sceneid tile_x tile_y tile_z (RgbTuple rgb) tilesize) = Inl e"
    using a by (simp add: tile_def tile_bands_eq CBERS_BUCKET_def Let_def)
next
  assume a: "cbersl_parse_scene_id (utils env) = Some parse' \<and> parse' sceneid = Inr p'
      \<and> rasterio_open env (''s3://cbers-pds/'' @ key p' @ ''/preview.jp2'') = Inr src'
      \<and> sentinel_min_max_worker (utils env) = Some worker'
      \<and> first_exn (map (\<lambda>band. worker' (band_address (''s3://cbers-pds/'' @ key p') sceneid band)
                                 pmin pmax) metadata_bands) = Some e'"
  then have "collect (map (\<lambda>band. worker' (band_address (''s3://cbers-pds/'' @ key p') sceneid band)
                                 pmin pmax) metadata_bands) = Inl e'"
    by (intro first_exn_collect) simp
  then show "fst (metadata env sched sceneid pmin pmax) = Inl e'"
    using a by (simp add: metadata_def executor_map_eq CBERS_BUCKET_def Let_def comp_def)
qed

theorem worker_failure_aborts_call_witness:
  "first_exn (map (\<lambda>band. demo_tiler
        (band_address ''s3://cbers-pds/CBERS4/MUX/057/094/CBERS_4_MUX_20171121_057_094_L2'' scene_0 band)
        (xy_bounds demo_world 359 651 10) 1) [''6'', ''9'', ''0'']) = Some IOError
   \<and> fst (tile demo_world [2, 1, 0] scene_0 359 651 10 (RgbTuple [''6'', ''9'', ''0'']) 1) = Inl IOError
   \<and> first_exn (map (\<lambda>band. failing_min_max
        (band_address ''s3://cbers-pds/CBERS4/MUX/057/094/CBERS_4_MUX_20171121_057_094_L2'' scene_0 band)
        2 98) metadata_bands) = Some IOError
   \<and> fst (metadata failing_world [1, 0] scene_0 2 98) = Inl IOError"
proof -
  let ?p = "\<lparr>key = ''CBERS4/MUX/057/094/CBERS_4_MUX_20171121_057_094_L2''\<rparr>"
  have t: "cbers_parse_scene_id (utils demo_world) = Some demo_parse \<and> demo_parse scene_0 = Inr ?p
      \<and> rasterio_open demo_world (''s3://cbers-pds/'' @ key ?p @ ''/'' @ scene_0 @ ''_BAND5.tif'')
          = Inr demo_raster
      \<and> tile_exists (utils demo_world) = Some (tile_exists_spec demo_footprint)
      \<and> tile_exists_spec demo_footprint
           (transform_bounds demo_world (src_crs demo_raster) ''epsg:4326'' (src_bounds demo_raster) 21)
           10 359 651
      \<and> tile_band_worker (utils demo_world) = Some demo_tiler
      \<and> first_exn (map (\<lambda>band. demo_tiler (band_address (''s3://cbers-pds/'' @ key ?p) scene_0 band)
                                 (xy_bounds demo_world 359 651 10) 1) [''6'', ''9'', ''0'']) = Some IOError"
    by (simp add: demo_eval)
  have m: "cbersl_parse_scene_id (utils failing_world) = Some demo_parse \<and> demo_parse scene_0 = Inr ?p
      \<and> rasterio_open failing_world (''s3://cbers-pds/'' @ key ?p @ ''/preview.jp2'') = Inr demo_raster
      \<and> sentinel_min_max_worker (utils failing_world) = Some failing_min_max
      \<and> first_exn (map (\<lambda>band. failing_min_max (band_address (''s3://cbers-pds/'' @ key ?p) scene_0 band)
                                 2 98) metadata_bands) = Some IOError"
    by (simp add: metadata_eval)
  have "fst (tile demo_world [2, 1, 0] scene_0 359 651 10 (RgbTuple [''6'', ''9'', ''0'']) 1) = Inl IOError"
    using t worker_failure_aborts_call [of demo_world demo_parse scene_0 ?p demo_raster
        "tile_exists_spec demo_footprint" 10 359 651 demo_tiler 1 "[''6'', ''9'', ''0'']" IOError]
    by blast
  moreover have "fst (metadata failing_world [1, 0] scene_0 2 98) = Inl IOError"
    using m worker_failure_aborts_call [of failing_world _ scene_0 _ _ _ _ _ _ _ _ _ _ _ demo_parse ?p
        demo_raster failing_min_max 2 98 IOError]
    by blast
  ultimately show ?thesis using t m by simp
qed

section \<open>Properties of the memoization\<close>

lemma lru_cached_hit:
  "map_of cache k = Some v \<Longrightarrow>
   lru_cached func k cache = ((Inr v, []), AList.delete k cache @ [(k, v)])"
  by (simp add: lru_cached_def lru_get_def)

lemma lru_cached_miss:
  "map_of cache k = None \<Longrightarrow> func k = (Inr v, trace) \<Longrightarrow>
   lru_cached func k cache = ((Inr v, trace), lru_set lru_maxsize k v cache)"
  by (simp add: lru_cached_def lru_get_def)

lemma lru_cached_raise:
  "map_of cache k = None \<Longrightarrow> func k = (Inl e, trace) \<Longrightarrow>
   lru_cached func k cache = ((Inl e, trace), cache)"
  by (simp add: lru_cached_def lru_get_def)

lemma map_of_delete_self: "map_of (AList.delete k cache) k = None"
  by (simp add: delete_conv')

lemma map_of_drop_None: "map_of xs k = None \<Longrightarrow> map_of (drop n xs) k = None"
proof -
  assume "map_of xs k = None"
  then have "k \<notin> fst ` set xs" by (simp add: map_of_eq_None_iff)
  moreover have "set (drop n xs) \<subseteq> set xs" by (rule set_drop_subset)
  ultimately have "k \<notin> fst ` set (drop n xs)" by blast
  then show ?thesis by (simp add: map_of_eq_None_iff)
qed

lemma map_of_lru_set: "0 < n \<Longrightarrow> map_of (lru_set n k v cache) k = Some v"
proof -
  assume n: "0 < n"
  have "map_of (drop (Suc (length (AList.delete k cache)) - n) (AList.delete k cache)) k = None"
    by (rule map_of_drop_None) (rule map_of_delete_self)
  then show ?thesis using n by (simp add: lru_set_def Let_def map_add_def)
qed

lemma length_delete_le: "length (AList.delete k cache) \<le> length cache"
  by (simp add: AList.delete_eq)

lemma length_lru_set: "0 < n \<Longrightarrow> length cache \<le> n \<Longrightarrow> length (lru_set n k v cache) \<le> n"
  using length_delete_le [of k cache] by (simp add: lru_set_def Let_def)

lemma length_delete_hit:
  assumes "map_of cache k = Some v"
  shows "length (AList.delete k cache) < length cache"
proof -
  have "(k, v) \<in> set cache" using assms by (rule map_of_SomeD)
  then have "length (filter (\<lambda>(k', _). k \<noteq> k') cache) < length cache"
    using length_filter_less [of "(k, v)" cache "\<lambda>(k', _). k \<noteq> k'"] by simp
  then show ?thesis by (simp add: AList.delete_eq)
qed



lemma of_char_digit: "d < 10 \<Longrightarrow> (of_char (char_of (48 + d :: nat)) :: nat) = 48 + d"
  by (simp add: take_bit_eq_mod)

lemma digit3_inj:
  assumes "digit3 n = digit3 m" and "n < 1000" and "m < 1000"
  shows "n = m"
proof -
  have a: "char_of (48 + n div 100 mod 10) = char_of (48 + m div 100 mod 10)"
    and b: "char_of (48 + n div 10 mod 10) = char_of (48 + m div 10 mod 10)"
    and c: "char_of (48 + n mod 10) = char_of (48 + m mod 10)"
    using assms(1) by (simp_all add: digit3_def)
  have "(of_char (char_of (48 + n div 100 mod 10)) :: nat) = of_char (char_of (48 + m div 100 mod 10))"
    using a by simp
  then have a': "n div 100 mod 10 = m div 100 mod 10" by (simp add: of_char_digit)
  have "(of_char (char_of (48 + n div 10 mod 10)) :: nat) = of_char (char_of (48 + m div 10 mod 10))"
    using b by simp
  then have b': "n div 10 mod 10 = m div 10 mod 10" by (simp add: of_char_digit)
  have "(of_char (char_of (48 + n mod 10)) :: nat) = of_char (char_of (48 + m mod 10))"
    using c by simp
  then have c': "n mod 10 = m mod 10" by (simp add: of_char_digit)
  have hn: "n div 100 < 10" using assms(2) by (simp add: less_mult_imp_div_less)
  have hm: "m div 100 < 10" using assms(3) by (simp add: less_mult_imp_div_less)
  have h: "n div 100 = m div 100" using a' hn hm by simp
  have tn: "n div 10 = 10 * (n div 10 div 10) + n div 10 mod 10" by simp
  have tm: "m div 10 = 10 * (m div 10 div 10) + m div 10 mod 10" by simp
  have dn: "n div 10 div 10 = n div 100" by (simp add: div_mult2_eq [symmetric])
  have dm: "m div 10 div 10 = m div 100" by (simp add: div_mult2_eq [symmetric])
  have t: "n div 10 = m div 10" using tn tm dn dm h b' by linarith
  have "n = 10 * (n div 10) + n mod 10" by simp
  moreover have "m = 10 * (m div 10) + m mod 10" by simp
  ultimately show ?thesis using t c' by linarith
qed

lemma scene_at_inj: "scene_at n = scene_at m \<Longrightarrow> n < 1000 \<Longrightarrow> m < 1000 \<Longrightarrow> n = m"
proof -
  assume eq: "scene_at n = scene_at m" and "n < 1000" "m < 1000"
  have "digit3 n @ ''_L2'' = digit3 m @ ''_L2''"
    using eq unfolding scene_at_def by (rule same_append_eq [THEN iffD1])
  then have "digit3 n = digit3 m" by (rule append_same_eq [THEN iffD1])
  then show ?thesis using \<open>n < 1000\<close> \<open>m < 1000\<close> by (rule digit3_inj)
qed

lemma scene_0_row: "scene_0 = scene_at 94"
  by code_simp

lemma distinct_scene_at:
  "distinct rows \<Longrightarrow> \<forall>r\<in>set rows. r < 1000 \<Longrightarrow> distinct (map scene_at rows)"
proof (induction rows)
  case Nil
  show ?case by simp
next
  case (Cons r rows)
  have "scene_at r \<notin> scene_at ` set rows"
  proof
    assume "scene_at r \<in> scene_at ` set rows"
    then obtain r' where r': "r' \<in> set rows" and eq: "scene_at r = scene_at r'" by blast
    have "r = r'" using eq Cons.prems(2) r' by (intro scene_at_inj) auto
    then show False using Cons.prems(1) r' by simp
  qed
  then show ?case using Cons by simp
qed

lemma bounds_before: "fst (bounds world_before (scene_at n)) = Inr (info_before (scene_at n))"
  by (simp add: bounds_def world_before_def demo_world_def demo_utils_def demo_parse_def
        scene_at_def digit3_def demo_raster_def list_of_bbox_def info_before_def Let_def)

lemma bounds_after: "fst (bounds world_after (scene_at n)) = Inr (info_after (scene_at n))"
  by (simp add: bounds_def world_after_def demo_world_def demo_utils_def demo_parse_def
        scene_at_def digit3_def demo_raster_def list_of_bbox_def info_after_def Let_def)

lemma bounds_calls_Cons:
  "bounds_calls ((env, s) # rest) c =
     (fst (fst (bounds_cached env s c)) # fst (bounds_calls rest (snd (bounds_cached env s c))),
      snd (bounds_calls rest (snd (bounds_cached env s c))))"
  by (simp split: prod.split)

lemma bounds_calls_append:
  "bounds_calls (xs @ ys) c =
     (fst (bounds_calls xs c) @ fst (bounds_calls ys (snd (bounds_calls xs c))),
      snd (bounds_calls ys (snd (bounds_calls xs c))))"
proof (induction xs arbitrary: c)
  case Nil
  show ?case by simp
next
  case (Cons x xs)
  obtain env sceneid where x: "x = (env, sceneid)" by (cases x)
  obtain r trace c' where b: "bounds_cached env sceneid c = ((r, trace), c')"
    by (cases "bounds_cached env sceneid c") auto
  show ?case unfolding x by (simp add: bounds_calls_Cons Cons.IH del: bounds_calls.simps)
qed

lemma bounds_cached_miss:
  assumes "map_of c k = None" and "fst (bounds env k) = Inr v"
  shows "fst (fst (bounds_cached env k c)) = Inr v"
    and "snd (bounds_cached env k c) = drop (Suc (length c) - lru_maxsize) c @ [(k, v)]"
proof -
  obtain trace where f: "bounds env k = (Inr v, trace)"
    using assms(2) by (cases "bounds env k") simp
  have notin: "k \<notin> fst ` set c" using assms(1) by (simp add: map_of_eq_None_iff)
  have eq: "bounds_cached env k c = ((Inr v, trace), lru_set lru_maxsize k v c)"
    unfolding bounds_cached_def using assms(1) f by (rule lru_cached_miss)
  show "fst (fst (bounds_cached env k c)) = Inr v" by (simp add: eq)
  show "snd (bounds_cached env k c) = drop (Suc (length c) - lru_maxsize) c @ [(k, v)]"
    using notin by (simp add: eq lru_set_def lru_maxsize_def)
qed

lemma bounds_calls_fill:
  "distinct ks \<Longrightarrow> set ks \<inter> fst ` set c = {} \<Longrightarrow> length c \<le> lru_maxsize \<Longrightarrow>
   (\<forall>k\<in>set ks. fst (bounds world_before k) = Inr (info_before k)) \<Longrightarrow>
   snd (bounds_calls (map (Pair world_before) ks) c)
     = drop (length c + length ks - lru_maxsize) (c @ map (\<lambda>k. (k, info_before k)) ks)"
proof (induction ks arbitrary: c)
  case Nil
  then show ?case by simp
next
  case (Cons k ks)
  let ?v = "info_before k"
  let ?d = "Suc (length c) - lru_maxsize"
  let ?c' = "drop ?d c @ [(k, ?v)]"
  let ?M = "map (\<lambda>k. (k, info_before k)) ks"
  have notin: "k \<notin> fst ` set c" using Cons.prems(2) by auto
  then have none: "map_of c k = None" by (simp add: map_of_eq_None_iff)
  have ok: "fst (bounds world_before k) = Inr ?v" using Cons.prems(4) by simp
  have c': "snd (bounds_cached world_before k c) = ?c'"
    using none ok by (rule bounds_cached_miss(2))
  have step: "snd (bounds_calls (map (Pair world_before) (k # ks)) c)
      = snd (bounds_calls (map (Pair world_before) ks) ?c')"
    by (simp add: bounds_calls_Cons c' del: bounds_calls.simps)
  have keys: "fst ` set ?c' \<subseteq> insert k (fst ` set c)"
    using set_drop_subset [of ?d c] by auto
  have disj: "set ks \<inter> fst ` set ?c' = {}"
    using keys Cons.prems(1,2) by auto
  have len: "length ?c' \<le> lru_maxsize" using Cons.prems(3) by (simp add: lru_maxsize_def)
  have IH: "snd (bounds_calls (map (Pair world_before) ks) ?c')
      = drop (length ?c' + length ks - lru_maxsize) (?c' @ ?M)"
    using Cons.prems(1,4) disj len by (intro Cons.IH) auto
  have d_le: "?d \<le> length c" using Cons.prems(3) by (simp add: lru_maxsize_def)
  have shift: "?c' @ ?M = drop ?d (c @ (k, ?v) # ?M)" using d_le by simp
  have idx: "length ?c' + length ks - lru_maxsize + ?d = length c + Suc (length ks) - lru_maxsize"
    using Cons.prems(3) by (simp add: lru_maxsize_def)
  have "drop (length ?c' + length ks - lru_maxsize) (?c' @ ?M)
      = drop (length ?c' + length ks - lru_maxsize + ?d) (c @ (k, ?v) # ?M)"
    unfolding shift by (simp only: drop_drop)
  also have "\<dots> = drop (length c + Suc (length ks) - lru_maxsize) (c @ (k, ?v) # ?M)"
    by (simp only: idx)
  finally show ?case using step IH by simp
qed

text \<open>
  Claim C4, as the code has it. The three functions are memoized per argument tuple in a
  least-recently-used cache of at most 128 entries, the default of the decorator: a call
  whose key is in the cache returns the stored value and makes no call to a collaborator;
  a call that returns leaves its value in the cache; the cache never grows beyond 128
  entries. So \<open>bounds\<close> called again right after it returned gives the same result,
  whatever has happened to the asset in between.
\<close>

theorem lru_cached_retention:
  "(map_of cache k = Some v \<longrightarrow> fst (lru_cached func k cache) = (Inr v, []))
   \<and> (fst (fst (lru_cached func k cache)) = Inr v \<longrightarrow>
        map_of (snd (lru_cached func k cache)) k = Some v)
   \<and> (length cache \<le> lru_maxsize \<longrightarrow> length (snd (lru_cached func k cache)) \<le> lru_maxsize)
   \<and> lru_maxsize = 128
   \<and> (fst (fst (bounds_cached env sceneid memo)) = Inr info \<longrightarrow>
        fst (bounds_cached env' sceneid (snd (bounds_cached env sceneid memo))) = (Inr info, []))"
proof -
  have pos: "0 < lru_maxsize" by (simp add: lru_maxsize_def)
  have hit: "fst (lru_cached f x c) = (Inr y, [])" if "map_of c x = Some y"
    for f :: "'x \<Rightarrow> (exn + 'y) \<times> call list" and x c y
    using that by (simp add: lru_cached_hit)
  have kept: "map_of (snd (lru_cached f x c)) x = Some y"
    if r: "fst (fst (lru_cached f x c)) = Inr y"
    for f :: "'x \<Rightarrow> (exn + 'y) \<times> call list" and x c y
  proof (cases "map_of c x")
    case (Some y')
    have "lru_cached f x c = ((Inr y', []), AList.delete x c @ [(x, y')])"
      using Some by (rule lru_cached_hit)
    moreover from this r have "y' = y" by simp
    ultimately show ?thesis by (simp add: map_add_def map_of_delete_self)
  next
    case None
    obtain res trace where f: "f x = (res, trace)" by (cases "f x")
    show ?thesis
    proof (cases res)
      case (Inl e)
      then have "lru_cached f x c = ((Inl e, trace), c)"
        using None f by (simp add: lru_cached_raise)
      then show ?thesis using r by simp
    next
      case (Inr y')
      then have eq: "lru_cached f x c = ((Inr y', trace), lru_set lru_maxsize x y' c)"
        using None f by (simp add: lru_cached_miss)
      then have "y' = y" using r by simp
      then show ?thesis using eq pos by (simp add: map_of_lru_set)
    qed
  qed
  have bounded: "length (snd (lru_cached func k cache)) \<le> lru_maxsize"
    if le: "length cache \<le> lru_maxsize"
  proof (cases "map_of cache k")
    case (Some y')
    have "lru_cached func k cache = ((Inr y', []), AList.delete k cache @ [(k, y')])"
      using Some by (rule lru_cached_hit)
    then show ?thesis using length_delete_hit [OF Some] le by simp
  next
    case None
    obtain res trace where f: "func k = (res, trace)" by (cases "func k")
    show ?thesis
    proof (cases res)
      case (Inl e)
      then have "lru_cached func k cache = ((Inl e, trace), cache)"
        using None f by (simp add: lru_cached_raise)
      then show ?thesis using le by simp
    next
      case (Inr y')
      then have "lru_cached func k cache = ((Inr y', trace), lru_set lru_maxsize k y' cache)"
        using None f by (simp add: lru_cached_miss)
      then show ?thesis using length_lru_set [OF pos le] by simp
    qed
  qed
  have again: "fst (bounds_cached env' sceneid (snd (bounds_cached env sceneid memo))) = (Inr info, [])"
    if "fst (fst (bounds_cached env sceneid memo)) = Inr info"
    using that unfolding bounds_cached_def by (intro hit kept)
  show ?thesis
    using hit [of cache k v func] kept [of func k cache v] bounded again
    by (simp add: lru_maxsize_def)
qed

theorem lru_cached_retention_witness:
  "map_of [(scene_0, info_before scene_0)] scene_0 = Some (info_before scene_0)
   \<and> fst (lru_cached (bounds world_after) scene_0 [(scene_0, info_before scene_0)])
       = (Inr (info_before scene_0), [])
   \<and> fst (fst (lru_cached (bounds world_before) scene_0 [])) = Inr (info_before scene_0)
   \<and> map_of (snd (lru_cached (bounds world_before) scene_0 [])) scene_0
       = Some (info_before scene_0)
   \<and> length (snd (lru_cached (bounds world_before) scene_0 [])) \<le> lru_maxsize
   \<and> fst (bounds_cached world_after scene_0 (snd (bounds_cached world_before scene_0 [])))
       = (Inr (info_before scene_0), [])"
proof -
  let ?v = "info_before scene_0"
  have stored: "map_of [(scene_0, ?v)] scene_0 = Some ?v" by simp
  have none0: "map_of ([] :: (string \<times> scene_info) list) scene_0 = None" by simp
  have first: "fst (bounds world_before scene_0) = Inr ?v"
    unfolding scene_0_row by (rule bounds_before)
  have miss: "fst (fst (bounds_cached world_before scene_0 [])) = Inr ?v"
    using none0 first by (rule bounds_cached_miss(1))
  have miss': "fst (fst (lru_cached (bounds world_before) scene_0 [])) = Inr ?v"
    using miss unfolding bounds_cached_def .
  have room: "length ([] :: (string \<times> scene_info) list) \<le> lru_maxsize" by simp
  note hit = lru_cached_retention
    [where cache = "[(scene_0, ?v)]" and k = scene_0 and v = ?v and func = "bounds world_after"
       and env = world_before and sceneid = scene_0 and memo = "[]" and info = ?v
       and env' = world_after]
  note new = lru_cached_retention
    [where cache = "[]" and k = scene_0 and v = ?v and func = "bounds world_before"
       and env = world_before and sceneid = scene_0 and memo = "[]" and info = ?v
       and env' = world_after]
  note a = hit [THEN conjunct1, THEN mp, OF stored]
  note b = new [THEN conjunct2, THEN conjunct1, THEN mp, OF miss']
  note c = new [THEN conjunct2, THEN conjunct2, THEN conjunct1, THEN mp, OF room]
  note d = new [THEN conjunct2, THEN conjunct2, THEN conjunct2, THEN conjunct2, THEN mp, OF miss]
  show ?thesis
    by (intro conjI) (rule stored a miss' b c d)+
qed


text \<open>
  The claim as stated (retention without bound or eviction, the same bounds on every
  repeated call) fails: after 128 other scenes the entry of the first scene has been
  evicted, the cache holds 128 entries, and the repeated call computes the bounds anew,
  from a reference band that has changed.
\<close>

theorem bounds_repeat_after_eviction:
  "hd (fst (bounds_calls eviction_run [])) = Inr (info_before scene_0)
   \<and> last (fst (bounds_calls eviction_run [])) = Inr (info_after scene_0)
   \<and> hd (fst (bounds_calls eviction_run [])) \<noteq> last (fst (bounds_calls eviction_run []))
   \<and> length (snd (bounds_calls (butlast eviction_run) [])) = 128
   \<and> map_of (snd (bounds_calls (butlast eviction_run) [])) scene_0 = None"
proof -
  define rows where "rows = [100..<228 :: nat]"
  define ks where "ks = map scene_at rows"
  define M where "M = map (\<lambda>k. (k, info_before k)) ks"
  let ?c1 = "[(scene_0, info_before scene_0)]"
  have run: "eviction_run = (world_before, scene_0) # (map (Pair world_before) ks @ [(world_after, scene_0)])"
    unfolding eviction_run_def ks_def rows_def by (rule refl)
  have front: "butlast eviction_run = (world_before, scene_0) # map (Pair world_before) ks"
    unfolding run by (simp add: butlast_append)
  have "length rows = 228 - 100" unfolding rows_def by (rule length_upt)
  then have len_ks: "length ks = 128" by (simp add: ks_def)
  have set_rows: "set rows = {100..<228}" unfolding rows_def by (rule set_upt)
  have d_rows: "distinct rows" unfolding rows_def by (rule distinct_upt)
  have small: "\<forall>r\<in>set (94 # rows). r < 1000" by (auto simp: set_rows)
  have "distinct (94 # rows)" using d_rows by (simp add: set_rows)
  then have "distinct (map scene_at (94 # rows))" using small by (rule distinct_scene_at)
  then have dist: "distinct ks" and fresh: "scene_0 \<notin> set ks"
    by (simp_all add: ks_def scene_0_row)
  have good: "\<forall>k\<in>set ks. fst (bounds world_before k) = Inr (info_before k)"
    by (auto simp: ks_def bounds_before)
  have first: "fst (bounds world_before scene_0) = Inr (info_before scene_0)"
    unfolding scene_0_row by (rule bounds_before)
  have again: "fst (bounds world_after scene_0) = Inr (info_after scene_0)"
    unfolding scene_0_row by (rule bounds_after)
  have none0: "map_of ([] :: (string \<times> scene_info) list) scene_0 = None" by simp
  have r0: "fst (fst (bounds_cached world_before scene_0 [])) = Inr (info_before scene_0)"
    using none0 first by (rule bounds_cached_miss(1))
  have c1: "snd (bounds_cached world_before scene_0 []) = ?c1"
    using bounds_cached_miss(2) [OF none0 first] by simp
  have "snd (bounds_calls (map (Pair world_before) ks) ?c1)
      = drop (length ?c1 + length ks - lru_maxsize) (?c1 @ map (\<lambda>k. (k, info_before k)) ks)"
    using dist _ _ good
  proof (rule bounds_calls_fill)
    show "set ks \<inter> fst ` set ?c1 = {}" using fresh by simp
    show "length ?c1 \<le> lru_maxsize" by (simp add: lru_maxsize_def)
  qed
  then have c2: "snd (bounds_calls (map (Pair world_before) ks) ?c1) = M"
    by (simp add: len_ks lru_maxsize_def M_def)
  have "scene_0 \<notin> fst ` set M" using fresh by (simp add: M_def image_image)
  then have none2: "map_of M scene_0 = None" by (simp add: map_of_eq_None_iff)
  have r2: "fst (fst (bounds_cached world_after scene_0 M)) = Inr (info_after scene_0)"
    using none2 again by (rule bounds_cached_miss(1))
  have results: "fst (bounds_calls eviction_run [])
      = Inr (info_before scene_0)
        # (fst (bounds_calls (map (Pair world_before) ks) ?c1) @ [Inr (info_after scene_0)])"
    unfolding run
    by (simp add: bounds_calls_Cons bounds_calls_append r0 c1 c2 r2 del: bounds_calls.simps(2))
  have h: "hd (fst (bounds_calls eviction_run [])) = Inr (info_before scene_0)"
    unfolding results by simp
  have l: "last (fst (bounds_calls eviction_run [])) = Inr (info_after scene_0)"
    unfolding results by simp
  have ne: "info_before scene_0 \<noteq> info_after scene_0"
    by (simp add: info_before_def info_after_def)
  have cache: "snd (bounds_calls (butlast eviction_run) []) = M"
    unfolding front by (simp add: bounds_calls_Cons c1 c2 del: bounds_calls.simps(2))
  have lenM: "length M = 128" by (simp add: M_def len_ks)
  show ?thesis
    unfolding h l cache using ne none2 lenM by simp
qed

section \<open>The scene-id parser of metadata\<close>

text \<open>
  Claim C3. \<open>metadata\<close> looks the scene-id parser up under the name
  \<open>cbersl_parse_scene_id\<close>, where \<open>bounds\<close> and \<open>tile\<close> call \<open>cbers_parse_scene_id\<close>.
  In the world whose \<open>utils\<close> defines the names of \<open>bounds\<close> and \<open>tile\<close>, the well-formed
  id of \<open>scene_0\<close>, for which \<open>bounds\<close> returns, makes \<open>metadata\<close> raise
  \<open>AttributeError\<close> before it opens any raster.
\<close>

theorem metadata_parser_name_undefined:
  "metadata demo_world [] scene_0 metadata_default_pmin metadata_default_pmax
     = (Inl (AttributeError ''cbersl_parse_scene_id''), [])
   \<and> fst (bounds demo_world scene_0)
       = Inr \<lparr>info_sceneid = scene_0, info_bounds = [-54, -25, -53, -24]\<rparr>"
proof
  show "metadata demo_world [] scene_0 metadata_default_pmin metadata_default_pmax
     = (Inl (AttributeError ''cbersl_parse_scene_id''), [])"
    by (simp add: metadata_def demo_world_def demo_utils_def)
  show "fst (bounds demo_world scene_0)
       = Inr \<lparr>info_sceneid = scene_0, info_bounds = [-54, -25, -53, -24]\<rparr>"
    by (simp add: bounds_def demo_defs)
qed

end
